theory Spec2Isabelle
  imports Main "HOL-Library.Sublist"
begin

section \<open>Python strings\<close>

text \<open>
  A Python \<open>str\<close> is modelled as a \<open>string\<close>, one \<open>char\<close> per code point
  (code points below 256). \<open>isspace\<close> lists the code points in that range that
  \<open>str.strip()\<close> removes: TAB, LF, VT, FF, CR, FS, GS, RS, US, SPACE, NEL, NBSP.
\<close>

definition isspace :: "char \<Rightarrow> bool" where
  "isspace c = (c \<in> set [CHR 0x09, CHR 0x0A, CHR 0x0B, CHR 0x0C, CHR 0x0D,
                          CHR 0x1C, CHR 0x1D, CHR 0x1E, CHR 0x1F, CHR 0x20,
                          CHR 0x85, CHR 0xA0])"

definition lstrip :: "string \<Rightarrow> string" where
  "lstrip s = dropWhile isspace s"

definition rstrip :: "string \<Rightarrow> string" where
  "rstrip s = rev (dropWhile isspace (rev s))"

text \<open>\<open>s.strip()\<close>: whitespace removed at both ends.\<close>

definition strip :: "string \<Rightarrow> string" where
  "strip s = rstrip (lstrip s)"

text \<open>
  \<open>s.split(sep)\<close> for a one-character separator: the fragments between the
  occurrences of \<open>sep\<close>; always at least one fragment (\<open>''''.split('.') == ['']\<close>),
  so the last case of the inner \<open>case\<close> is never taken.
\<close>

fun split :: "char \<Rightarrow> string \<Rightarrow> string list" where
  "split sep [] = [[]]"
| "split sep (c # cs) =
     (if c = sep then [] # split sep cs
      else (case split sep cs of
              f # fs \<Rightarrow> (c # f) # fs
            | [] \<Rightarrow> [[c]]))"

text \<open>\<open>sep.join(xs)\<close>.\<close>

fun join :: "string \<Rightarrow> string list \<Rightarrow> string" where
  "join sep [] = []"
| "join sep [x] = x"
| "join sep (x # y # ys) = x @ sep @ join sep (y # ys)"

section \<open>Result Condenser\<close>

text \<open>
  \<^verbatim>\<open>sentences = [s.strip() for s in search_result.split('.') if len(s.strip()) > 20]\<close>
\<close>

definition sentences :: "string \<Rightarrow> string list" where
  "sentences search_result =
     map strip (filter (\<lambda>s. 20 < length (strip s)) (split CHR ''.'' search_result))"

text \<open>
  \<^verbatim>\<open>key_sentences = sentences[:5]
  return '. '.join(key_sentences) + '.' if key_sentences else search_result[:500]\<close>
\<close>

definition extract_key_info :: "string \<Rightarrow> string" where
  "extract_key_info search_result =
     (let key_sentences = take 5 (sentences search_result)
      in if key_sentences \<noteq> [] then join ''. '' key_sentences @ ''.''
         else take 500 search_result)"

text \<open>
  What the condenser keeps: a sentence free of the delimiter, free of surrounding
  whitespace and longer than 20 characters.
\<close>

definition kept_sentence :: "string \<Rightarrow> bool" where
  "kept_sentence k = (CHR ''.'' \<notin> set k \<and> strip k = k \<and> 20 < length k)"

section \<open>Length-based truncation\<close>

datatype error = TypeError | OverflowError | Exception string









section \<open>Turn Processor\<close>

text \<open>
  The values a message field can hold: text, or a value that is not text and cannot
  be sliced (an \<open>int\<close>, \<open>None\<close>).
\<close>

datatype pyval = PStr string | PInt int | PNone

text \<open>
  The three shapes \<open>chatbot\<close> tells apart in the last message: an object exposing
  \<open>content\<close> (the message classes of the program, whose content is text), a \<open>dict\<close>,
  and any other value, of a type \<open>'r\<close> with its \<open>str()\<close>.
\<close>

datatype 'r message =
    HumanMessage string
  | AIMessage string
  | Mapping "string \<rightharpoonup> pyval"
  | Raw 'r

text \<open>What the model client returns: an object with \<open>content\<close>, or any other value.\<close>

datatype 'r response = WithContent string | Plain 'r

text \<open>The calls made to the two external collaborators, in order.\<close>

datatype call = SearchInvoke string | LLMInvoke string

datatype role = User | Assistant

text \<open>\<^verbatim>\<open>role = "user" if isinstance(msg, HumanMessage) else "assistant"\<close>\<close>

definition role_of :: "'r message \<Rightarrow> role" where
  "role_of msg = (case msg of HumanMessage _ \<Rightarrow> User | _ \<Rightarrow> Assistant)"

definition greeting :: string where
  "greeting = ''Hi! Ask me anything and I'll search for the latest information.''"

definition search_unavailable :: string where
  "search_unavailable = ''Search temporarily unavailable.''"

definition llm_fallback :: string where
  "llm_fallback =
     ''I encountered an error generating the response. Please try rephrasing your question.''"

text \<open>
  \<^verbatim>\<open>if hasattr(last_message, "content"): user_question = last_message.content
  elif isinstance(last_message, dict): user_question = last_message.get("content", "")
  else: user_question = str(last_message)\<close>
\<close>

definition user_question_of :: "('r \<Rightarrow> string) \<Rightarrow> 'r message \<Rightarrow> pyval" where
  "user_question_of str_of last_message =
     (case last_message of
        HumanMessage c \<Rightarrow> PStr c
      | AIMessage c \<Rightarrow> PStr c
      | Mapping d \<Rightarrow> (case d ''content'' of Some v \<Rightarrow> v | None \<Rightarrow> PStr [])
      | Raw v \<Rightarrow> PStr (str_of v))"

text \<open>The f-string of the prompt.\<close>

definition system_prompt :: "string \<Rightarrow> string \<Rightarrow> string" where
  "system_prompt optimized_search_result user_question =
     ''Based on the search results below, provide a concise, well-structured answer to the user's question.\<newline>\<newline>SEARCH RESULTS:\<newline>''
     @ optimized_search_result
     @ ''\<newline>\<newline>USER QUESTION: ''
     @ user_question
     @ ''\<newline>\<newline>Instructions:\<newline>- Keep response under 300 words\<newline>- Focus on the most recent and relevant information\<newline>- Use clear, structured formatting\<newline>- If search results are limited, acknowledge this\<newline>''"

text \<open>\<^verbatim>\<open>content = getattr(lc_response, "content", str(lc_response))\<close>\<close>

definition response_content :: "('r \<Rightarrow> string) \<Rightarrow> 'r response \<Rightarrow> string" where
  "response_content str_of lc_response =
     (case lc_response of WithContent c \<Rightarrow> c | Plain v \<Rightarrow> str_of v)"

text \<open>
  \<open>chatbot\<close>, with the two collaborators as parameters (\<open>Inl\<close>: the call raised) and
  the state as its one field \<open>messages\<close>. It returns the calls it made and either the
  new messages or the error it raised. The only statement outside a \<open>try\<close> that can
  raise is the slice \<open>user_question[:100]\<close> of the log line, on a question that is
  not text.
\<close>

definition chatbot ::
  "('r \<Rightarrow> string) \<Rightarrow> (string \<Rightarrow> error + string) \<Rightarrow> (string \<Rightarrow> error + 'r response) \<Rightarrow>
   'r message list \<Rightarrow> call list \<times> (error + 'r message list)" where
  "chatbot str_of search llm messages =
     (if messages = [] then ([], Inr [AIMessage greeting])
      else case user_question_of str_of (last messages) of
          PStr user_question \<Rightarrow>
            (let optimized_search_result =
                   (case search user_question of
                      Inr raw_search_result \<Rightarrow> extract_key_info raw_search_result
                    | Inl e \<Rightarrow> search_unavailable);
                 prompt = system_prompt optimized_search_result user_question;
                 content =
                   (case llm prompt of
                      Inr lc_response \<Rightarrow> response_content str_of lc_response
                    | Inl e \<Rightarrow> llm_fallback)
             in ([SearchInvoke user_question, LLMInvoke prompt],
                 Inr (messages @ [AIMessage content])))
        | _ \<Rightarrow> ([], Inl TypeError))"


section \<open>Properties of the string operations\<close>

lemma split_not_Nil: "split sep s \<noteq> []"
  by (induction s) (auto split: list.splits)

lemma split_no_sep: "f \<in> set (split sep s) \<Longrightarrow> sep \<notin> set f"
  by (induction s arbitrary: f) (auto split: list.splits if_splits)

lemma join_split: "join [sep] (split sep s) = s"
proof (induction s)
  case Nil
  show ?case by simp
next
  case (Cons c cs)
  obtain f fs where r: "split sep cs = f # fs"
    using split_not_Nil [of sep cs] by (cases "split sep cs") auto
  show ?case
  proof (cases "c = sep")
    case True
    with Cons r show ?thesis by simp
  next
    case False
    with Cons r show ?thesis by (cases fs) auto
  qed
qed

lemma split_free: "sep \<notin> set a \<Longrightarrow> split sep a = [a]"
  by (induction a) auto

lemma split_append: "sep \<notin> set a \<Longrightarrow> split sep (a @ sep # b) = a # split sep b"
  by (induction a) auto

lemma rstrip_Cons:
  "rstrip (x # xs) = (if rstrip xs = [] \<and> isspace x then [] else x # rstrip xs)"
  by (auto simp: rstrip_def dropWhile_append dropWhile_eq_Nil_conv)

lemma rstrip_idem: "rstrip (rstrip s) = rstrip s"
  by (simp add: rstrip_def)

lemma lstrip_rstrip: "t = [] \<or> \<not> isspace (hd t) \<Longrightarrow> lstrip (rstrip t) = rstrip t"
  by (cases t) (auto simp: rstrip_Cons lstrip_def, simp add: rstrip_def)

lemma lstrip_head: "lstrip s = [] \<or> \<not> isspace (hd (lstrip s))"
  unfolding lstrip_def by (metis hd_dropWhile)

lemma strip_idem: "strip (strip s) = strip s"
  unfolding strip_def using lstrip_rstrip [OF lstrip_head, of s] by (simp add: rstrip_idem)

lemma strip_space_Cons: "isspace c \<Longrightarrow> strip (c # s) = strip s"
  by (simp add: strip_def lstrip_def)

lemma set_strip: "set (strip s) \<subseteq> set s"
proof -
  have "set (rstrip t) \<subseteq> set t" for t
    unfolding rstrip_def using set_dropWhileD [of _ isspace "rev t"] by auto
  moreover have "set (lstrip s) \<subseteq> set s"
    unfolding lstrip_def using set_dropWhileD [of _ isspace s] by auto
  ultimately show ?thesis unfolding strip_def by blast
qed

lemma length_rstrip_append: "length (rstrip a) \<le> length (rstrip (a @ b))"
proof (cases "\<forall>x\<in>set b. isspace x")
  case True
  then show ?thesis by (simp add: rstrip_def dropWhile_append)
next
  case False
  then have "rstrip (a @ b) = a @ rstrip b"
    by (auto simp: rstrip_def dropWhile_append)
  moreover have "length (rstrip a) \<le> length a"
    unfolding rstrip_def using length_dropWhile_le [of isspace "rev a"] by simp
  ultimately show ?thesis by simp
qed

lemma length_strip_prefix: "prefix p f \<Longrightarrow> length (strip p) \<le> length (strip f)"
proof -
  assume "prefix p f"
  then obtain b where f: "f = p @ b" by (auto simp: prefix_def)
  show ?thesis
  proof (cases "\<forall>x\<in>set p. isspace x")
    case True
    then have "lstrip p = []" by (simp add: lstrip_def)
    then show ?thesis by (simp add: strip_def rstrip_def)
  next
    case False
    then have "lstrip f = lstrip p @ b" by (auto simp: f lstrip_def dropWhile_append)
    then show ?thesis by (simp add: strip_def length_rstrip_append)
  qed
qed

lemma split_take:
  "\<exists>g gs f fs. split sep s = g # gs \<and> split sep (take n s) = f # fs \<and> prefix f g \<and>
     (\<forall>x\<in>set fs. \<exists>y\<in>set gs. prefix x y)"
proof (induction s arbitrary: n)
  case Nil
  show ?case by simp
next
  case (Cons c cs)
  show ?case
  proof (cases n)
    case 0
    obtain g gs where "split sep (c # cs) = g # gs"
      using split_not_Nil [of sep "c # cs"] by (cases "split sep (c # cs)") auto
    with 0 show ?thesis by simp
  next
    case (Suc m)
    from Cons [of m] obtain g gs f fs where
      h: "split sep cs = g # gs" "split sep (take m cs) = f # fs" "prefix f g"
         "\<forall>x\<in>set fs. \<exists>y\<in>set gs. prefix x y" by blast
    show ?thesis
    proof (cases "c = sep")
      case True
      with Suc h show ?thesis by auto
    next
      case False
      with Suc h show ?thesis by auto
    qed
  qed
qed

lemma split_take_prefix:
  assumes "x \<in> set (split sep (take n s))"
  shows "\<exists>y\<in>set (split sep s). prefix x y"
  using split_take [of sep s n] assms by auto

section \<open>Properties of the Result Condenser\<close>

lemma split_join_dot:
  "ks \<noteq> [] \<Longrightarrow> \<forall>k\<in>set ks. CHR ''.'' \<notin> set k \<Longrightarrow>
   split CHR ''.'' (join ''. '' ks @ ''.'') = hd ks # map (\<lambda>k. CHR '' '' # k) (tl ks) @ [[]]"
proof (induction "''. ''" ks rule: join.induct)
  case 1
  then show ?case by simp
next
  case (2 x)
  then show ?case using split_append [of "CHR ''.''" x "[]"] by simp
next
  case (3 x y ys)
  then have ih: "split CHR ''.'' (join ''. '' (y # ys) @ ''.'') =
      y # map (\<lambda>k. CHR '' '' # k) ys @ [[]]" by simp
  have "join ''. '' (x # y # ys) @ ''.'' = x @ CHR ''.'' # (CHR '' '' # join ''. '' (y # ys) @ ''.'')"
    by simp
  moreover from 3 have "CHR ''.'' \<notin> set x" by simp
  ultimately have "split CHR ''.'' (join ''. '' (x # y # ys) @ ''.'') =
      x # split CHR ''.'' (CHR '' '' # join ''. '' (y # ys) @ ''.'')"
    using split_append [of "CHR ''.''" x] by metis
  with ih show ?case by simp
qed

lemma isspace_space: "isspace CHR '' ''"
  by (simp add: isspace_def)

lemma strip_Nil: "strip [] = []"
  by (simp add: strip_def lstrip_def rstrip_def)

lemma sentences_kept: "k \<in> set (sentences s) \<Longrightarrow> kept_sentence k"
  unfolding sentences_def kept_sentence_def
  using split_no_sep [of _ "CHR ''.''" s] set_strip by (auto simp: strip_idem)

lemma sentences_of_kept:
  "\<forall>k\<in>set ks. kept_sentence k \<Longrightarrow>
   map strip (filter (\<lambda>s. 20 < length (strip s)) (map (\<lambda>k. CHR '' '' # k) ks)) = ks"
  by (induction ks) (auto simp: kept_sentence_def strip_space_Cons isspace_space)

lemma sentences_join:
  assumes "ks \<noteq> []" and c: "\<forall>k\<in>set ks. kept_sentence k"
  shows "sentences (join ''. '' ks @ ''.'') = ks"
proof -
  obtain k ks' where ks: "ks = k # ks'" using assms(1) by (cases ks) auto
  have "split CHR ''.'' (join ''. '' ks @ ''.'') = hd ks # map (\<lambda>k. CHR '' '' # k) (tl ks) @ [[]]"
    using split_join_dot [OF assms(1)] c by (simp add: kept_sentence_def)
  moreover have "kept_sentence k" "\<forall>k\<in>set ks'. kept_sentence k" using c ks by auto
  ultimately show ?thesis
    using sentences_of_kept [of ks']
    by (simp add: sentences_def ks strip_Nil) (simp add: kept_sentence_def)
qed

lemma sentences_take_Nil:
  assumes "sentences s = []"
  shows "sentences (take n s) = []"
proof -
  have a: "\<forall>f\<in>set (split CHR ''.'' s). \<not> 20 < length (strip f)"
    using assms by (simp add: sentences_def filter_empty_conv)
  have "\<not> 20 < length (strip x)" if "x \<in> set (split CHR ''.'' (take n s))" for x
  proof -
    from split_take_prefix [OF that] obtain y where
      "y \<in> set (split CHR ''.'' s)" "prefix x y" by blast
    with a length_strip_prefix [of x y] show ?thesis by fastforce
  qed
  then show ?thesis by (simp add: sentences_def filter_empty_conv)
qed

lemma extract_key_info_idem: "extract_key_info (extract_key_info x) = extract_key_info x"
proof (cases "sentences x = []")
  case True
  then have "extract_key_info x = take 500 x" by (simp add: extract_key_info_def)
  moreover have "sentences (take 500 x) = []" using True by (rule sentences_take_Nil)
  ultimately show ?thesis by (simp add: extract_key_info_def)
next
  case False
  define ks where "ks = take 5 (sentences x)"
  have ne: "ks \<noteq> []" using False by (simp add: ks_def)
  have "\<forall>k\<in>set ks. kept_sentence k"
    using sentences_kept [of _ x] set_take_subset [of 5 "sentences x"] by (auto simp: ks_def)
  then have s: "sentences (join ''. '' ks @ ''.'') = ks" using ne by (simp add: sentences_join)
  have t: "take 5 ks = ks" by (simp add: ks_def)
  have e: "extract_key_info x = join ''. '' ks @ ''.''"
    using ne by (simp add: extract_key_info_def ks_def)
  show ?thesis unfolding e using ne s t by (simp add: extract_key_info_def)
qed

section \<open>Claims about the Result Condenser\<close>

text \<open>
  C5, as stated, has fragments of length at least 20 qualify. The source keeps a
  fragment only when its stripped length exceeds 20: here a fragment of exactly 20
  characters is a fragment of the input and is dropped from the result.
\<close>

theorem short_fragment_counterexample:
  "''aaaaaaaaaaaaaaaaaaaa'' \<in> set (split CHR ''.'' ''aaaaaaaaaaaaaaaaaaaa. bbbbbbbbbbbbbbbbbbbbbbbbb'')
   \<and> 20 \<le> length ''aaaaaaaaaaaaaaaaaaaa''
   \<and> extract_key_info ''aaaaaaaaaaaaaaaaaaaa. bbbbbbbbbbbbbbbbbbbbbbbbb'' = ''bbbbbbbbbbbbbbbbbbbbbbbbb.''"
  by code_simp

text \<open>
  C5 (amended): for every input string, \<open>extract_key_info\<close> splits the text on
  \<open>'.'\<close> (the fragments contain no \<open>'.'\<close> and joined by \<open>'.'\<close> give the text back),
  keeps the stripped fragments whose stripped length exceeds 20, in order, takes at most
  the first 5 of them and joins them with \<open>'. '\<close> plus a final \<open>'.'\<close>, so the result
  ends with \<open>'.'\<close>; if no fragment qualifies it returns the first 500 characters of
  the text. It is a total function to strings.
\<close>

theorem extract_key_info_condenses:
  "join ''.'' (split CHR ''.'' s) = s
   \<and> (\<forall>f\<in>set (split CHR ''.'' s). CHR ''.'' \<notin> set f)
   \<and> sentences s = map strip (filter (\<lambda>f. 20 < length (strip f)) (split CHR ''.'' s))
   \<and> (\<forall>k\<in>set (sentences s). 20 < length k)
   \<and> length (take 5 (sentences s)) \<le> 5
   \<and> (sentences s \<noteq> [] \<longrightarrow>
        extract_key_info s = join ''. '' (take 5 (sentences s)) @ ''.''
        \<and> last (extract_key_info s) = CHR ''.'')
   \<and> (sentences s = [] \<longrightarrow> extract_key_info s = take 500 s)"
proof -
  have 1: "join ''.'' (split CHR ''.'' s) = s" by (rule join_split)
  have 2: "\<forall>f\<in>set (split CHR ''.'' s). CHR ''.'' \<notin> set f" using split_no_sep by blast
  have 3: "sentences s = map strip (filter (\<lambda>f. 20 < length (strip f)) (split CHR ''.'' s))"
    by (simp add: sentences_def)
  have 4: "\<forall>k\<in>set (sentences s). 20 < length k"
    using sentences_kept by (auto simp: kept_sentence_def)
  have 5: "length (take 5 (sentences s)) \<le> 5" by simp
  have 6: "sentences s \<noteq> [] \<longrightarrow>
        extract_key_info s = join ''. '' (take 5 (sentences s)) @ ''.''
        \<and> last (extract_key_info s) = CHR ''.''"
    by (simp add: extract_key_info_def)
  have 7: "sentences s = [] \<longrightarrow> extract_key_info s = take 500 s"
    by (simp add: extract_key_info_def)
  from 1 2 3 4 5 6 7 show ?thesis by blast
qed

theorem extract_key_info_condenses_witness:
  "sentences ''aaaaaaaaaaaaaaaaaaaa. bbbbbbbbbbbbbbbbbbbbbbbbb'' = [''bbbbbbbbbbbbbbbbbbbbbbbbb'']
   \<and> extract_key_info ''aaaaaaaaaaaaaaaaaaaa. bbbbbbbbbbbbbbbbbbbbbbbbb'' = ''bbbbbbbbbbbbbbbbbbbbbbbbb.''
   \<and> last (extract_key_info ''aaaaaaaaaaaaaaaaaaaa. bbbbbbbbbbbbbbbbbbbbbbbbb'') = CHR ''.''
   \<and> sentences ''no long sentence. here'' = []
   \<and> extract_key_info ''no long sentence. here'' = ''no long sentence. here''"
proof -
  have a: "sentences ''aaaaaaaaaaaaaaaaaaaa. bbbbbbbbbbbbbbbbbbbbbbbbb'' = [''bbbbbbbbbbbbbbbbbbbbbbbbb'']"
    by code_simp
  have b: "sentences ''no long sentence. here'' = []"
    by code_simp
  from a have a': "sentences ''aaaaaaaaaaaaaaaaaaaa. bbbbbbbbbbbbbbbbbbbbbbbbb'' \<noteq> []" by simp
  have c: "extract_key_info ''aaaaaaaaaaaaaaaaaaaa. bbbbbbbbbbbbbbbbbbbbbbbbb''
       = join ''. '' (take 5 (sentences ''aaaaaaaaaaaaaaaaaaaa. bbbbbbbbbbbbbbbbbbbbbbbbb'')) @ ''.''
     \<and> last (extract_key_info ''aaaaaaaaaaaaaaaaaaaa. bbbbbbbbbbbbbbbbbbbbbbbbb'') = CHR ''.''"
    using extract_key_info_condenses [of "''aaaaaaaaaaaaaaaaaaaa. bbbbbbbbbbbbbbbbbbbbbbbbb''"] a'
    by (elim conjE) (erule (1) mp)
  have d: "extract_key_info ''no long sentence. here'' = take 500 ''no long sentence. here''"
    using extract_key_info_condenses [of "''no long sentence. here''"] b
    by (elim conjE) (erule (1) mp)
  have e: "take 500 ''no long sentence. here'' = ''no long sentence. here''" by simp
  from c a have f: "extract_key_info ''aaaaaaaaaaaaaaaaaaaa. bbbbbbbbbbbbbbbbbbbbbbbbb'' = ''bbbbbbbbbbbbbbbbbbbbbbbbb.''"
    by simp
  from a b c d e f show ?thesis by (intro conjI) simp_all
qed

text \<open>
  C6: the Result Condenser is idempotent on every text with at most 5 qualifying
  sentences (\<open>extract_key_info_idem\<close> shows that the bound is not needed).
\<close>

theorem extract_key_info_idempotent:
  "length (sentences x) \<le> 5 \<Longrightarrow> extract_key_info (extract_key_info x) = extract_key_info x"
  by (rule extract_key_info_idem)

theorem extract_key_info_idempotent_witness:
  "length (sentences ''The quick brown fox jumps. ok. A second sentence, long enough.'') \<le> 5
   \<and> extract_key_info (extract_key_info ''The quick brown fox jumps. ok. A second sentence, long enough.'')
     = extract_key_info ''The quick brown fox jumps. ok. A second sentence, long enough.''
   \<and> extract_key_info ''The quick brown fox jumps. ok. A second sentence, long enough.''
     = ''The quick brown fox jumps. A second sentence, long enough.''"
proof -
  have h: "length (sentences ''The quick brown fox jumps. ok. A second sentence, long enough.'') \<le> 5"
    by code_simp
  have v: "extract_key_info ''The quick brown fox jumps. ok. A second sentence, long enough.''
     = ''The quick brown fox jumps. A second sentence, long enough.''"
    by code_simp
  from h v extract_key_info_idempotent [OF h] show ?thesis by blast
qed

section \<open>Properties of the length-based truncation\<close>













section \<open>Properties of the Turn Processor\<close>

lemma chatbot_text:
  assumes "messages \<noteq> []" and "user_question_of str_of (last messages) = PStr q"
  shows "chatbot str_of search llm messages =
    ([SearchInvoke q,
      LLMInvoke (system_prompt (case search q of Inr raw \<Rightarrow> extract_key_info raw
                                | Inl e \<Rightarrow> search_unavailable) q)],
     Inr (messages @ [AIMessage
       (case llm (system_prompt (case search q of Inr raw \<Rightarrow> extract_key_info raw
                                 | Inl e \<Rightarrow> search_unavailable) q) of
          Inr r \<Rightarrow> response_content str_of r | Inl e \<Rightarrow> llm_fallback)]))"
  using assms by (simp add: chatbot_def Let_def)

lemma chatbot_calls:
  assumes "c \<in> set (fst (chatbot str_of search llm messages))"
  shows "messages \<noteq> [] \<and> (\<exists>q. user_question_of str_of (last messages) = PStr q)"
  using assms by (auto simp: chatbot_def Let_def split: if_splits pyval.splits)

lemma sublist_second: "sublist x (a @ x @ d)"
  by (rule sublist_appendI)

lemma sublist_fourth: "sublist x (a @ b @ c @ x @ d)"
  by (metis append.assoc sublist_appendI)

lemma sublist_system_prompt:
  "sublist r (system_prompt r q) \<and> sublist q (system_prompt r q)"
  unfolding system_prompt_def by (intro conjI, rule sublist_second, rule sublist_fourth)

lemma sublist_trans: "sublist a b \<Longrightarrow> sublist b c \<Longrightarrow> sublist a c"
  by (rule sublist_order.order.trans)

section \<open>Claims about the Turn Processor\<close>

text \<open>
  C4: on an empty conversation \<open>chatbot\<close> returns exactly one message, the assistant
  message carrying the static greeting, and makes no call to the Search Client or the
  Language Model Client.
\<close>

theorem chatbot_empty_greets:
  "chatbot str_of search llm [] = ([], Inr [AIMessage greeting])
   \<and> role_of (AIMessage greeting :: 'r message) = Assistant"
  by (simp add: chatbot_def role_of_def)




text \<open>
  C2: if the call to the Search Client made during a turn on a non-empty conversation
  raises, the condensed result is the literal \<open>Search temporarily unavailable.\<close>, the
  prompt passed to the Language Model Client contains that literal, and the turn
  returns the conversation with exactly one assistant message appended; no error
  leaves \<open>chatbot\<close>.
\<close>

theorem search_failure_fallback:
  assumes "messages \<noteq> []"
    and "SearchInvoke q \<in> set (fst (chatbot str_of search llm messages))"
    and "search q = Inl e"
  shows "\<exists>content.
      chatbot str_of search llm messages =
        ([SearchInvoke q, LLMInvoke (system_prompt ''Search temporarily unavailable.'' q)],
         Inr (messages @ [AIMessage content]))
      \<and> sublist ''Search temporarily unavailable.''
            (system_prompt ''Search temporarily unavailable.'' q)"
proof -
  from chatbot_calls [OF assms(2)] obtain q' where
    q': "user_question_of str_of (last messages) = PStr q'" by blast
  note c = chatbot_text [OF assms(1) q', of search llm]
  from assms(2) c have "q' = q" by simp
  with c assms(3) show ?thesis
    using sublist_system_prompt [of "''Search temporarily unavailable.''" q]
    by (simp add: search_unavailable_def)
qed

theorem search_failure_fallback_witness:
  "[HumanMessage ''hello''] \<noteq> ([] :: unit message list)
   \<and> SearchInvoke ''hello'' \<in> set (fst (chatbot (\<lambda>u::unit. []) (\<lambda>q. Inl (Exception ''down''))
          (\<lambda>p. Inr (WithContent ''An answer.'')) [HumanMessage ''hello'']))
   \<and> (\<exists>content.
      chatbot (\<lambda>u::unit. []) (\<lambda>q. Inl (Exception ''down'')) (\<lambda>p. Inr (WithContent ''An answer.''))
          [HumanMessage ''hello''] =
        ([SearchInvoke ''hello'', LLMInvoke (system_prompt ''Search temporarily unavailable.'' ''hello'')],
         Inr ([HumanMessage ''hello''] @ [AIMessage content]))
      \<and> sublist ''Search temporarily unavailable.''
            (system_prompt ''Search temporarily unavailable.'' ''hello''))"
proof -
  have a: "[HumanMessage ''hello''] \<noteq> ([] :: unit message list)" by simp
  have b: "SearchInvoke ''hello'' \<in> set (fst (chatbot (\<lambda>u::unit. []) (\<lambda>q. Inl (Exception ''down''))
          (\<lambda>p. Inr (WithContent ''An answer.'')) [HumanMessage ''hello'']))"
    by (simp add: chatbot_def user_question_of_def)
  have c: "(\<lambda>q. Inl (Exception ''down'') :: error + string) ''hello'' = Inl (Exception ''down'')" by simp
  from a b search_failure_fallback [OF a b c] show ?thesis by blast
qed

text \<open>
  C3: if the call to the Language Model Client made during a turn on a non-empty
  conversation raises, \<open>chatbot\<close> returns the conversation with one assistant message
  appended whose content is the literal fallback asking the user to rephrase; no
  error leaves \<open>chatbot\<close>.
\<close>

theorem llm_failure_fallback:
  assumes "messages \<noteq> []"
    and "LLMInvoke p \<in> set (fst (chatbot str_of search llm messages))"
    and "llm p = Inl e"
  shows "snd (chatbot str_of search llm messages) =
      Inr (messages @ [AIMessage
        ''I encountered an error generating the response. Please try rephrasing your question.''])"
proof -
  from chatbot_calls [OF assms(2)] obtain q where
    q: "user_question_of str_of (last messages) = PStr q" by blast
  note c = chatbot_text [OF assms(1) q, of search llm]
  from assms(2) c have "p = system_prompt (case search q of Inr raw \<Rightarrow> extract_key_info raw
                                | Inl e \<Rightarrow> search_unavailable) q" by simp
  with c assms(3) show ?thesis by (simp add: llm_fallback_def)
qed

theorem llm_failure_fallback_witness:
  "[HumanMessage ''hello''] \<noteq> ([] :: unit message list)
   \<and> LLMInvoke (system_prompt ''Some result.'' ''hello'') \<in> set (fst (chatbot (\<lambda>u::unit. [])
          (\<lambda>q. Inr ''Some result.'') (\<lambda>p. Inl (Exception ''down'')) [HumanMessage ''hello'']))
   \<and> snd (chatbot (\<lambda>u::unit. []) (\<lambda>q. Inr ''Some result.'') (\<lambda>p. Inl (Exception ''down''))
          [HumanMessage ''hello'']) =
      Inr ([HumanMessage ''hello''] @ [AIMessage
        ''I encountered an error generating the response. Please try rephrasing your question.''])"
proof -
  have a: "[HumanMessage ''hello''] \<noteq> ([] :: unit message list)" by simp
  have e: "extract_key_info ''Some result.'' = ''Some result.''" by code_simp
  have b: "LLMInvoke (system_prompt ''Some result.'' ''hello'') \<in> set (fst (chatbot (\<lambda>u::unit. [])
          (\<lambda>q. Inr ''Some result.'') (\<lambda>p. Inl (Exception ''down'')) [HumanMessage ''hello'']))"
    by (simp add: chatbot_def user_question_of_def e)
  have c: "(\<lambda>p. Inl (Exception ''down'') :: error + unit response) (system_prompt ''Some result.'' ''hello'')
      = Inl (Exception ''down'')" by simp
  from a b llm_failure_fallback [OF a b c] show ?thesis by blast
qed

text \<open>
  C7: for the question \<open>What is the capital of France?\<close> and the search result of
  the scenario, the condenser retains the three sentences (its result is the search
  result itself), and the prompt passed to the Language Model Client is the template
  with that result and the question embedded verbatim.
\<close>

theorem capital_of_France_scenario:
  assumes "search ''What is the capital of France?'' =
    Inr ''Paris is the capital of France. It has a population of over 2 million. The Eiffel Tower is located there.''"
  shows "sentences ''Paris is the capital of France. It has a population of over 2 million. The Eiffel Tower is located there.''
      = [''Paris is the capital of France'', ''It has a population of over 2 million'',
         ''The Eiffel Tower is located there'']
    \<and> extract_key_info ''Paris is the capital of France. It has a population of over 2 million. The Eiffel Tower is located there.''
      = ''Paris is the capital of France. It has a population of over 2 million. The Eiffel Tower is located there.''
    \<and> (\<exists>prompt.
          fst (chatbot str_of search llm [HumanMessage ''What is the capital of France?''])
            = [SearchInvoke ''What is the capital of France?'', LLMInvoke prompt]
        \<and> prompt = ''Based on the search results below, provide a concise, well-structured answer to the user's question.\<newline>\<newline>SEARCH RESULTS:\<newline>Paris is the capital of France. It has a population of over 2 million. The Eiffel Tower is located there.\<newline>\<newline>USER QUESTION: What is the capital of France?\<newline>\<newline>Instructions:\<newline>- Keep response under 300 words\<newline>- Focus on the most recent and relevant information\<newline>- Use clear, structured formatting\<newline>- If search results are limited, acknowledge this\<newline>''
        \<and> sublist ''Paris is the capital of France'' prompt
        \<and> sublist ''It has a population of over 2 million'' prompt
        \<and> sublist ''The Eiffel Tower is located there'' prompt
        \<and> sublist ''What is the capital of France?'' prompt)"
proof -
  let ?raw = "''Paris is the capital of France. It has a population of over 2 million. The Eiffel Tower is located there.''"
  let ?q = "''What is the capital of France?''"
  have s: "sentences ?raw = [''Paris is the capital of France'',
      ''It has a population of over 2 million'', ''The Eiffel Tower is located there'']"
    by code_simp
  have e: "extract_key_info ?raw = ?raw" by code_simp
  have m: "[HumanMessage ?q] \<noteq> ([] :: 'a message list)" by simp
  have u: "user_question_of str_of (last [HumanMessage ?q]) = PStr ?q"
    by (simp add: user_question_of_def)
  have c: "fst (chatbot str_of search llm [HumanMessage ?q])
      = [SearchInvoke ?q, LLMInvoke (system_prompt ?raw ?q)]"
    using chatbot_text [OF m u, of search llm] assms e by simp
  have p: "system_prompt ?raw ?q = ''Based on the search results below, provide a concise, well-structured answer to the user's question.\<newline>\<newline>SEARCH RESULTS:\<newline>Paris is the capital of France. It has a population of over 2 million. The Eiffel Tower is located there.\<newline>\<newline>USER QUESTION: What is the capital of France?\<newline>\<newline>Instructions:\<newline>- Keep response under 300 words\<newline>- Focus on the most recent and relevant information\<newline>- Use clear, structured formatting\<newline>- If search results are limited, acknowledge this\<newline>''"
    by (simp add: system_prompt_def)
  have r: "sublist ?raw (system_prompt ?raw ?q)" and q: "sublist ?q (system_prompt ?raw ?q)"
    using sublist_system_prompt [of ?raw ?q] by blast+
  have "?raw = [] @ ''Paris is the capital of France'' @ ''. It has a population of over 2 million. The Eiffel Tower is located there.''"
    by simp
  then have 1: "sublist ''Paris is the capital of France'' ?raw"
    unfolding sublist_def by blast
  have "?raw = ''Paris is the capital of France. '' @ ''It has a population of over 2 million'' @ ''. The Eiffel Tower is located there.''"
    by simp
  then have 2: "sublist ''It has a population of over 2 million'' ?raw"
    unfolding sublist_def by blast
  have "?raw = ''Paris is the capital of France. It has a population of over 2 million. '' @ ''The Eiffel Tower is located there'' @ ''.''"
    by simp
  then have 3: "sublist ''The Eiffel Tower is located there'' ?raw"
    unfolding sublist_def by blast
  note 1 [THEN sublist_trans, OF r] 2 [THEN sublist_trans, OF r] 3 [THEN sublist_trans, OF r] q
  then have "sublist ''Paris is the capital of France'' (system_prompt ?raw ?q)
        \<and> sublist ''It has a population of over 2 million'' (system_prompt ?raw ?q)
        \<and> sublist ''The Eiffel Tower is located there'' (system_prompt ?raw ?q)
        \<and> sublist ?q (system_prompt ?raw ?q)" by (intro conjI)
  with c p have "\<exists>prompt.
          fst (chatbot str_of search llm [HumanMessage ?q]) = [SearchInvoke ?q, LLMInvoke prompt]
        \<and> prompt = ''Based on the search results below, provide a concise, well-structured answer to the user's question.\<newline>\<newline>SEARCH RESULTS:\<newline>Paris is the capital of France. It has a population of over 2 million. The Eiffel Tower is located there.\<newline>\<newline>USER QUESTION: What is the capital of France?\<newline>\<newline>Instructions:\<newline>- Keep response under 300 words\<newline>- Focus on the most recent and relevant information\<newline>- Use clear, structured formatting\<newline>- If search results are limited, acknowledge this\<newline>''
        \<and> sublist ''Paris is the capital of France'' prompt
        \<and> sublist ''It has a population of over 2 million'' prompt
        \<and> sublist ''The Eiffel Tower is located there'' prompt
        \<and> sublist ?q prompt"
    by (intro exI [of _ "system_prompt ?raw ?q"] conjI) (simp_all only:)
  with s e show ?thesis by (intro conjI)
qed

theorem capital_of_France_scenario_witness:
  "fst (chatbot (\<lambda>u::unit. [])
      (\<lambda>q. Inr ''Paris is the capital of France. It has a population of over 2 million. The Eiffel Tower is located there.'')
      (\<lambda>p. Inr (WithContent ''Paris.'')) [HumanMessage ''What is the capital of France?''])
   = [SearchInvoke ''What is the capital of France?'', LLMInvoke ''Based on the search results below, provide a concise, well-structured answer to the user's question.\<newline>\<newline>SEARCH RESULTS:\<newline>Paris is the capital of France. It has a population of over 2 million. The Eiffel Tower is located there.\<newline>\<newline>USER QUESTION: What is the capital of France?\<newline>\<newline>Instructions:\<newline>- Keep response under 300 words\<newline>- Focus on the most recent and relevant information\<newline>- Use clear, structured formatting\<newline>- If search results are limited, acknowledge this\<newline>'']"
proof -
  have a: "(\<lambda>q. Inr ''Paris is the capital of France. It has a population of over 2 million. The Eiffel Tower is located there.'' :: error + string)
      ''What is the capital of France?'' =
    Inr ''Paris is the capital of France. It has a population of over 2 million. The Eiffel Tower is located there.''"
    by simp
  from capital_of_France_scenario [OF a, of "\<lambda>u::unit. []" "\<lambda>p. Inr (WithContent ''Paris.'')"]
  show ?thesis by (elim conjE exE) (simp only:)
qed

text \<open>
  C8, as stated, has the extraction return text for every mapping with a content
  field. The \<open>dict\<close> branch returns the field as it is, without coercion: for a
  content field holding \<open>None\<close> the extracted question is \<open>None\<close>, and the turn then
  raises \<open>TypeError\<close> at the log line.
\<close>

theorem mapping_non_text_counterexample:
  "user_question_of (\<lambda>u::unit. []) (Mapping [''content'' \<mapsto> PNone]) = PNone
   \<and> chatbot (\<lambda>u::unit. []) (\<lambda>q. Inr []) (\<lambda>p. Inr (WithContent []))
        [Mapping [''content'' \<mapsto> PNone]] = ([], Inl TypeError)"
  by (simp add: chatbot_def user_question_of_def)

text \<open>
  C8 (amended): the extraction of the user question never fails and returns text
  for an object exposing text content, for a mapping whose content field holds text
  (that text), for a mapping without a content field (the empty string) and for any
  other raw value (its \<open>str()\<close>); it returns text exactly unless the message is a
  mapping whose content field holds a value that is not text, which it returns
  unchanged.
\<close>

theorem user_question_of_shapes:
  "user_question_of str_of (HumanMessage c) = PStr c
   \<and> user_question_of str_of (AIMessage c) = PStr c
   \<and> user_question_of str_of (Raw v) = PStr (str_of v)
   \<and> (d ''content'' = None \<longrightarrow> user_question_of str_of (Mapping d) = PStr [])
   \<and> (d ''content'' = Some (PStr c) \<longrightarrow> user_question_of str_of (Mapping d) = PStr c)
   \<and> (d ''content'' = Some w \<longrightarrow> user_question_of str_of (Mapping d) = w)
   \<and> ((\<exists>q. user_question_of str_of m = PStr q) \<longleftrightarrow>
        (\<forall>d' w'. m = Mapping d' \<and> d' ''content'' = Some w' \<longrightarrow> (\<exists>t. w' = PStr t)))"
proof -
  have "(\<exists>q. user_question_of str_of m = PStr q) \<longleftrightarrow>
        (\<forall>d' w'. m = Mapping d' \<and> d' ''content'' = Some w' \<longrightarrow> (\<exists>t. w' = PStr t))"
    by (cases m) (auto simp: user_question_of_def split: option.splits)
  then show ?thesis by (simp add: user_question_of_def)
qed

theorem user_question_of_shapes_witness:
  "user_question_of (\<lambda>n::nat. ''42'') (Mapping Map.empty) = PStr []
   \<and> user_question_of (\<lambda>n::nat. ''42'') (Mapping [''content'' \<mapsto> PStr ''hello'']) = PStr ''hello''
   \<and> user_question_of (\<lambda>n::nat. ''42'') (Mapping [''content'' \<mapsto> PInt 7]) = PInt 7
   \<and> user_question_of (\<lambda>n::nat. ''42'') (Raw 42) = PStr ''42''
   \<and> (\<exists>q. user_question_of (\<lambda>n::nat. ''42'') (Mapping [''content'' \<mapsto> PStr ''hello'']) = PStr q)"
proof -
  note t = user_question_of_shapes [where str_of = "\<lambda>n::nat. ''42''" and c = "''hello''"
      and v = 42 and d = "Map.empty" and m = "Mapping [''content'' \<mapsto> PStr ''hello'']"]
  note u = user_question_of_shapes [where str_of = "\<lambda>n::nat. ''42''" and c = "''hello''"
      and v = 42 and d = "[''content'' \<mapsto> PStr ''hello'']"
      and m = "Mapping [''content'' \<mapsto> PStr ''hello'']"]
  note n = user_question_of_shapes [where str_of = "\<lambda>n::nat. ''42''" and c = "''hello''"
      and v = 42 and d = "[''content'' \<mapsto> PInt 7]" and w = "PInt 7"
      and m = "Mapping [''content'' \<mapsto> PStr ''hello'']"]
  have a: "Map.empty ''content'' = (None :: pyval option)" by simp
  have b: "[''content'' \<mapsto> PStr ''hello''] ''content'' = Some (PStr ''hello'')" by simp
  have e: "[''content'' \<mapsto> PInt 7] ''content'' = Some (PInt 7)" by simp
  have c: "\<forall>d' w'. (Mapping [''content'' \<mapsto> PStr ''hello''] :: nat message) = Mapping d'
        \<and> d' ''content'' = Some w' \<longrightarrow> (\<exists>t. w' = PStr t)" by auto
  from t a have 1: "user_question_of (\<lambda>n::nat. ''42'') (Mapping Map.empty) = PStr []" by blast
  from u b have 2: "user_question_of (\<lambda>n::nat. ''42'') (Mapping [''content'' \<mapsto> PStr ''hello'']) = PStr ''hello''"
    by blast
  from n e have 5: "user_question_of (\<lambda>n::nat. ''42'') (Mapping [''content'' \<mapsto> PInt 7]) = PInt 7"
    by blast
  from t have 3: "user_question_of (\<lambda>n::nat. ''42'') (Raw 42) = PStr ''42''" by blast
  from t c have 4: "\<exists>q. user_question_of (\<lambda>n::nat. ''42'') (Mapping [''content'' \<mapsto> PStr ''hello'']) = PStr q"
    by blast
  from 1 2 3 4 5 show ?thesis by blast
qed

text \<open>
  C10: \<open>chatbot\<close> does not modify the messages it is given: whenever it returns a
  conversation for a non-empty conversation \<open>C\<close>, the first \<open>len(C)\<close> messages are
  those of \<open>C\<close>, in order, followed by the single appended assistant message; for the
  empty conversation it returns the greeting alone.
\<close>

theorem chatbot_keeps_history:
  assumes "snd (chatbot str_of search llm messages) = Inr out"
  shows "(messages = [] \<longrightarrow> out = [AIMessage greeting])
      \<and> (messages \<noteq> [] \<longrightarrow> take (length messages) out = messages
            \<and> (\<exists>content. drop (length messages) out = [AIMessage content])
            \<and> (\<forall>i < length messages. out ! i = messages ! i))"
proof (cases "messages = []")
  case True
  with assms show ?thesis by (simp add: chatbot_def)
next
  case False
  from assms False obtain q where q: "user_question_of str_of (last messages) = PStr q"
    by (auto simp: chatbot_def split: pyval.splits)
  from chatbot_text [OF False q, of search llm] assms False show ?thesis
    by (auto simp: nth_append)
qed

theorem chatbot_keeps_history_witness:
  "snd (chatbot (\<lambda>u::unit. []) (\<lambda>q. Inl (Exception ''down'')) (\<lambda>p. Inr (WithContent ''An answer.''))
          [AIMessage ''Hi'', HumanMessage ''hello'']) =
     Inr [AIMessage ''Hi'', HumanMessage ''hello'', AIMessage ''An answer.'']
   \<and> take (length [AIMessage ''Hi'', HumanMessage ''hello'' :: unit message])
        [AIMessage ''Hi'', HumanMessage ''hello'', AIMessage ''An answer.'']
      = [AIMessage ''Hi'', HumanMessage ''hello'' :: unit message]"
proof -
  have a: "snd (chatbot (\<lambda>u::unit. []) (\<lambda>q. Inl (Exception ''down'')) (\<lambda>p. Inr (WithContent ''An answer.''))
          [AIMessage ''Hi'', HumanMessage ''hello'']) =
     Inr [AIMessage ''Hi'', HumanMessage ''hello'', AIMessage ''An answer.'']"
    by (simp add: chatbot_def user_question_of_def response_content_def)
  have b: "[AIMessage ''Hi'', HumanMessage ''hello''] \<noteq> ([] :: unit message list)" by simp
  from chatbot_keeps_history [OF a] b
  have "take (length [AIMessage ''Hi'', HumanMessage ''hello'' :: unit message])
        [AIMessage ''Hi'', HumanMessage ''hello'', AIMessage ''An answer.'']
      = [AIMessage ''Hi'', HumanMessage ''hello'' :: unit message]" by blast
  with a show ?thesis by blast
qed

section \<open>Claims about the length-based truncation\<close>




end
